theory Spec2Isabelle
  imports Main
begin

section \<open>Host primitives used by the scanner\<close>

text \<open>
  The scanner is TypeScript; a string is modelled as a \<open>char list\<close> (code units below 256).
  The three host functions it relies on are \<open>String.prototype.split\<close> with the regular
  expression \<^verbatim>\<open>/\r\n|\r|\n/\<close>, \<open>String.prototype.trim\<close> and the global \<open>parseInt\<close>.
  \<open>parseFloat\<close> is never inspected by the scanner, only carried in the group it returns,
  so it is a parameter \<open>pf\<close> of everything that calls it.
\<close>

abbreviation CR :: char where "CR \<equiv> CHR 0x0D"
abbreviation LF :: char where "LF \<equiv> CHR 0x0A"

text \<open>
  \<^verbatim>\<open>s.split(/\r\n|\r|\n/)\<close>: the input is scanned from the left; at each position the
  alternatives are tried in order, so a carriage return directly followed by a line feed is
  one separator. The result is never empty: the empty string gives \<open>[[]]\<close>.
\<close>

fun split_lines :: "string \<Rightarrow> string list" where
  "split_lines [] = [[]]"
| "split_lines (c # cs) =
     (if c = CR \<and> cs \<noteq> [] \<and> hd cs = LF then [] # split_lines (tl cs)
      else if c = CR \<or> c = LF then [] # split_lines cs
      else (case split_lines cs of
              [] \<Rightarrow> [[c]]
            | l # ls \<Rightarrow> (c # l) # ls))"

text \<open>White space and line terminators of ECMAScript that fit in one byte.\<close>

definition is_ws :: "char \<Rightarrow> bool" where
  "is_ws c = (c \<in> set [CHR 0x09, CHR 0x0A, CHR 0x0B, CHR 0x0C, CHR 0x0D, CHR 0x20, CHR 0xA0])"

definition trim :: "string \<Rightarrow> string" where
  "trim s = rev (dropWhile is_ws (rev (dropWhile is_ws s)))"

text \<open>
  A host number as \<open>parseInt\<close> returns it: \<open>NaN\<close>, an integer that a double represents
  exactly, or an infinity. (\<open>-0\<close> is \<open>Num 0\<close>: the scanner compares with \<open>===\<close> and
  \<open><=\<close>, which do not tell them apart.)
\<close>

datatype jsnum = NaN | Num int | Infinity | NegInfinity

text \<open>
  The Number value of a mathematical integer: the nearest double, a tie going to the even
  significand, and an infinity from \<open>2^1024 - 2^970\<close> on. Below \<open>2^53\<close> every integer is a
  double.
\<close>

function bit_length :: "int \<Rightarrow> nat" where
  "bit_length n = (if n \<le> 0 then 0 else Suc (bit_length (n div 2)))"
  by pat_completeness auto
termination
  by (relation "measure nat") auto

declare bit_length.simps [simp del]

definition to_double :: "int \<Rightarrow> jsnum" where
  "to_double n =
     (let a = \<bar>n\<bar> in
      if a < 2 ^ 53 then Num n
      else
        let e = bit_length a - 53;
            q = a div 2 ^ e;
            r = a mod 2 ^ e;
            q' = (if 2 * r > 2 ^ e \<or> (2 * r = 2 ^ e \<and> odd q) then q + 1 else q);
            m = q' * 2 ^ e
        in if m \<ge> 2 ^ 1024 then (if n < 0 then NegInfinity else Infinity)
           else Num (if n < 0 then - m else m))"

text \<open>
  \<open>parseInt(s)\<close> with no radix: leading white space is dropped, then an optional sign, then
  an optional \<open>0x\<close>/\<open>0X\<close> prefix that selects radix 16; the longest prefix of digits of the
  radix is read. No digit at all gives \<open>NaN\<close>; otherwise the result is the Number value of
  the signed integer the digits denote. (The language lets a host replace the decimal
  digits after the twentieth by zeros; the host of this program reads them all, and so does
  the model.)
\<close>

definition digit_value :: "char \<Rightarrow> nat" where
  "digit_value c =
     (let n = (of_char c :: nat) in
      if 48 \<le> n \<and> n \<le> 57 then n - 48
      else if 97 \<le> n \<and> n \<le> 122 then n - 87
      else if 65 \<le> n \<and> n \<le> 90 then n - 55
      else 36)"

definition is_digit :: "nat \<Rightarrow> char \<Rightarrow> bool" where
  "is_digit radix c = (digit_value c < radix)"

definition parseInt :: "string \<Rightarrow> jsnum" where
  "parseInt s =
     (let s1 = dropWhile is_ws s;
          neg = (s1 \<noteq> [] \<and> hd s1 = CHR ''-'');
          s2 = (if s1 \<noteq> [] \<and> (hd s1 = CHR ''+'' \<or> hd s1 = CHR ''-'') then tl s1 else s1);
          hex = (2 \<le> length s2 \<and> (take 2 s2 = ''0x'' \<or> take 2 s2 = ''0X''));
          radix = (if hex then 16 else 10);
          s3 = (if hex then drop 2 s2 else s2);
          z = takeWhile (is_digit radix) s3
      in if z = [] then NaN
         else to_double ((if neg then - 1 else 1) *
                         foldl (\<lambda>a c. a * int radix + int (digit_value c)) 0 z))"

text \<open>\<open>String(n)\<close> for an integer \<open>n\<close>, as a template literal prints it.\<close>

fun string_of_nat :: "nat \<Rightarrow> string" where
  "string_of_nat n =
     (if n < 10 then [''0123456789'' ! n]
      else string_of_nat (n div 10) @ [''0123456789'' ! (n mod 10)])"

declare string_of_nat.simps [simp del]

definition string_of_int :: "int \<Rightarrow> string" where
  "string_of_int i = (if i < 0 then CHR ''-'' # string_of_nat (nat (- i)) else string_of_nat (nat i))"


text \<open>\<open>JSON.stringify\<close> of a string: the quoted text with the JSON escapes.\<close>

definition hex_digit :: "nat \<Rightarrow> char" where
  "hex_digit n = ''0123456789abcdef'' ! n"

definition json_escape :: "char \<Rightarrow> string" where
  "json_escape c =
     (if c = CHR 0x22 then [CHR 0x5C, CHR 0x22]
      else if c = CHR 0x5C then [CHR 0x5C, CHR 0x5C]
      else if c = CHR 0x08 then [CHR 0x5C, CHR ''b'']
      else if c = CHR 0x0C then [CHR 0x5C, CHR ''f'']
      else if c = CHR 0x0A then [CHR 0x5C, CHR ''n'']
      else if c = CHR 0x0D then [CHR 0x5C, CHR ''r'']
      else if c = CHR 0x09 then [CHR 0x5C, CHR ''t'']
      else if (of_char c :: nat) < 32
        then [CHR 0x5C, CHR ''u'', CHR ''0'', CHR ''0'',
              hex_digit ((of_char c :: nat) div 16), hex_digit ((of_char c :: nat) mod 16)]
      else [c])"

definition json_stringify :: "string \<Rightarrow> string" where
  "json_stringify s = [CHR 0x22] @ concat (map json_escape s) @ [CHR 0x22]"

fun join :: "string \<Rightarrow> string list \<Rightarrow> string" where
  "join sep [] = []"
| "join sep [x] = x"
| "join sep (x # y # ys) = x @ sep @ join sep (y # ys)"

section \<open>The error classes\<close>

text \<open>
  \<open>formatMessage(message, context)\<close> appends one part for every field of the context that
  is not \<open>undefined\<close>, in a fixed order, and joins the parts with \<open>" | "\<close>. The context is a
  record of optional fields; a constructor passes only some of them.
\<close>

record msg_context =
  ctx_line :: "int option"
  ctx_section :: "string option"
  ctx_pointer :: "int option"
  ctx_groupCode :: "int option"
  ctx_groupValue :: "string option"
  ctx_code :: "int option"
  ctx_rawValue :: "string option"
  ctx_expectedType :: "string option"

definition no_context :: msg_context where
  "no_context = \<lparr>ctx_line = None, ctx_section = None, ctx_pointer = None, ctx_groupCode = None,
     ctx_groupValue = None, ctx_code = None, ctx_rawValue = None, ctx_expectedType = None\<rparr>"

definition part :: "string \<Rightarrow> ('a \<Rightarrow> string) \<Rightarrow> 'a option \<Rightarrow> string list" where
  "part label shw x = (case x of None \<Rightarrow> [] | Some v \<Rightarrow> [label @ shw v])"

definition formatMessage :: "string \<Rightarrow> msg_context \<Rightarrow> string" where
  "formatMessage message ctx =
     join '' | ''
       ([message]
        @ part ''line: '' string_of_int (ctx_line ctx)
        @ part ''section: '' id (ctx_section ctx)
        @ part ''pointer: '' string_of_int (ctx_pointer ctx)
        @ part ''code: '' string_of_int (ctx_groupCode ctx)
        @ part ''value: '' json_stringify (ctx_groupValue ctx)
        @ part ''code: '' string_of_int (ctx_code ctx)
        @ part ''value: '' json_stringify (ctx_rawValue ctx)
        @ part ''expected: '' id (ctx_expectedType ctx))"

text \<open>A plain host \<open>Error\<close> with its message: what a transport fails with.\<close>

datatype host_error = JsError string

text \<open>
  The three classes of the repository, each with the message its constructor passes to
  \<open>super\<close> and its own fields, and the \<open>TypeError\<close> the host raises when a method is
  called on \<open>undefined\<close>.
\<close>

datatype dxf_error =
    DxfParseError string "int option" "string option" "host_error option"
  | DxfScannerError string int "int option" "string option" "host_error option"
  | DxfValueError string int string "string option"
  | TypeError

definition new_DxfParseError ::
  "string \<Rightarrow> int option \<Rightarrow> string option \<Rightarrow> host_error option \<Rightarrow> dxf_error" where
  "new_DxfParseError message line section cause =
     DxfParseError (formatMessage message (no_context\<lparr>ctx_line := line, ctx_section := section\<rparr>))
       line section cause"

definition new_DxfScannerError ::
  "string \<Rightarrow> int \<Rightarrow> int option \<Rightarrow> string option \<Rightarrow> host_error option \<Rightarrow> dxf_error" where
  "new_DxfScannerError message pointer groupCode groupValue cause =
     DxfScannerError
       (formatMessage message
          (no_context\<lparr>ctx_pointer := Some pointer, ctx_groupCode := groupCode,
             ctx_groupValue := groupValue\<rparr>))
       pointer groupCode groupValue cause"

definition new_DxfValueError :: "string \<Rightarrow> int \<Rightarrow> string \<Rightarrow> string option \<Rightarrow> dxf_error" where
  "new_DxfValueError message code rawValue expectedType =
     DxfValueError
       (formatMessage message
          (no_context\<lparr>ctx_code := Some code, ctx_rawValue := Some rawValue,
             ctx_expectedType := expectedType\<rparr>))
       code rawValue expectedType"

fun is_ParseError :: "dxf_error \<Rightarrow> bool" where
  "is_ParseError (DxfParseError m l s c) = True"
| "is_ParseError e = False"

fun is_ScannerError :: "dxf_error \<Rightarrow> bool" where
  "is_ScannerError (DxfScannerError m p c v e) = True"
| "is_ScannerError e = False"

fun is_ValueError :: "dxf_error \<Rightarrow> bool" where
  "is_ValueError (DxfValueError m c r t) = True"
| "is_ValueError e = False"

section \<open>The stream scanner\<close>

text \<open>
  A value is a string, a boolean, or a host number; the constructor records which host
  parser produced the number: \<open>VFloat\<close> holds the result of \<open>parseFloat\<close>, \<open>VInteger\<close> the
  result of \<open>parseInt\<close>.
\<close>

datatype 'f typed_value =
    VString string
  | VFloat 'f
  | VInteger jsnum
  | VBoolean bool

record 'f group =
  code :: jsnum
  gvalue :: "'f typed_value"

record 'f scanner =
  buffer :: string
  lines :: "string list"
  pointer :: int
  eof :: bool
  lineNumber :: int
  lastReadGroup :: "'f group option"

definition new_scanner :: "'f scanner" where
  "new_scanner = \<lparr>buffer = [], lines = [], pointer = 0, eof = False, lineNumber = 0,
     lastReadGroup = None\<rparr>"

text \<open>\<open>this.lines[i]\<close>: \<open>undefined\<close> (\<open>None\<close>) at a negative index or past the end.\<close>

definition line_at :: "string list \<Rightarrow> int \<Rightarrow> string option" where
  "line_at ls i = (if 0 \<le> i \<and> i < int (length ls) then Some (ls ! nat i) else None)"

text \<open>\<open>parseInt(this.lines[i])\<close>: \<open>undefined\<close> is converted to the string \<open>"undefined"\<close>.\<close>

definition parseInt_line :: "string option \<Rightarrow> jsnum" where
  "parseInt_line l = (case l of None \<Rightarrow> parseInt ''undefined'' | Some s \<Rightarrow> parseInt s)"

definition addChunk :: "string \<Rightarrow> 'f scanner \<Rightarrow> nat \<times> 'f scanner" where
  "addChunk chunk s =
     (let splitLines = split_lines (buffer s @ chunk);
          startIndex = length (lines s);
          s' = s\<lparr>buffer := last splitLines, lines := lines s @ butlast splitLines\<rparr>
      in (length (lines s') - startIndex, s'))"

definition finalize :: "'f scanner \<Rightarrow> 'f scanner" where
  "finalize s =
     (if length (buffer s) > 0 then s\<lparr>lines := lines s @ [buffer s], buffer := []\<rparr> else s)"

definition getCurrentLineNumber :: "'f scanner \<Rightarrow> int" where
  "getCurrentLineNumber s = lineNumber s"

definition hasNext :: "'f scanner \<Rightarrow> bool" where
  "hasNext s = (if eof s then False else pointer s \<le> int (length (lines s)) - 2)"

definition isEOF :: "'f scanner \<Rightarrow> bool" where
  "isEOF s = eof s"

text \<open>
  \<open>code <= k\<close> and \<open>code >= k\<close> for a host number: every comparison with \<open>NaN\<close> is
  false.
\<close>

definition jle :: "jsnum \<Rightarrow> int \<Rightarrow> bool" where
  "jle c k = (case c of NaN \<Rightarrow> False | Num n \<Rightarrow> n \<le> k | Infinity \<Rightarrow> False | NegInfinity \<Rightarrow> True)"

definition jge :: "jsnum \<Rightarrow> int \<Rightarrow> bool" where
  "jge c k = (case c of NaN \<Rightarrow> False | Num n \<Rightarrow> n \<ge> k | Infinity \<Rightarrow> True | NegInfinity \<Rightarrow> False)"

definition parseBoolean :: "int \<Rightarrow> string \<Rightarrow> dxf_error + bool" where
  "parseBoolean ln str =
     (if str = ''0'' then Inr False
      else if str = ''1'' then Inr True
      else Inl (new_DxfParseError
                 (''Value '' @ [CHR 0x27] @ str @ [CHR 0x27] @ '' cannot be cast to Boolean type'')
                 (Some ln) None None))"

text \<open>
  \<open>parseGroupValue\<close> reads \<open>this._lineNumber\<close> through \<open>parseBoolean\<close>, so the line counter
  \<open>ln\<close> is an argument.
\<close>

definition parseGroupValue ::
  "(string \<Rightarrow> 'f) \<Rightarrow> int \<Rightarrow> jsnum \<Rightarrow> string \<Rightarrow> dxf_error + 'f typed_value" where
  "parseGroupValue pf ln c v =
     (if jle c 9 then Inr (VString v)
      else if jge c 10 \<and> jle c 59 then Inr (VFloat (pf v))
      else if jge c 60 \<and> jle c 99 then Inr (VInteger (parseInt v))
      else if jge c 100 \<and> jle c 109 then Inr (VString v)
      else if jge c 110 \<and> jle c 149 then Inr (VFloat (pf v))
      else if jge c 160 \<and> jle c 179 then Inr (VInteger (parseInt v))
      else if jge c 210 \<and> jle c 239 then Inr (VFloat (pf v))
      else if jge c 270 \<and> jle c 289 then Inr (VInteger (parseInt v))
      else if jge c 290 \<and> jle c 299 then map_sum id VBoolean (parseBoolean ln v)
      else if jge c 300 \<and> jle c 369 then Inr (VString v)
      else if jge c 370 \<and> jle c 389 then Inr (VInteger (parseInt v))
      else if jge c 390 \<and> jle c 399 then Inr (VString v)
      else if jge c 400 \<and> jle c 409 then Inr (VInteger (parseInt v))
      else if jge c 410 \<and> jle c 419 then Inr (VString v)
      else if jge c 420 \<and> jle c 429 then Inr (VInteger (parseInt v))
      else if jge c 430 \<and> jle c 439 then Inr (VString v)
      else if jge c 440 \<and> jle c 459 then Inr (VInteger (parseInt v))
      else if jge c 460 \<and> jle c 469 then Inr (VFloat (pf v))
      else if jge c 470 \<and> jle c 481 then Inr (VString v)
      else if c = Num 999 then Inr (VString v)
      else if jge c 1000 \<and> jle c 1009 then Inr (VString v)
      else if jge c 1010 \<and> jle c 1059 then Inr (VFloat (pf v))
      else if jge c 1060 \<and> jle c 1071 then Inr (VInteger (parseInt v))
      else Inr (VString v))"

text \<open>
  \<open>next()\<close>. An exception leaves the fields as they are when it is thrown, so the model
  returns the scanner together with the outcome. \<open>this.lines[this._pointer].trim()\<close> is a
  \<open>TypeError\<close> when the line is \<open>undefined\<close>.
\<close>

definition nextGroup :: "(string \<Rightarrow> 'f) \<Rightarrow> 'f scanner \<Rightarrow> (dxf_error + 'f group) \<times> 'f scanner" where
  "nextGroup pf s =
     (if \<not> hasNext s then
        (if \<not> eof s
         then (Inl (new_DxfParseError ''Unexpected end of input: need more data''
                      (Some (lineNumber s)) None None), s)
         else (Inl (new_DxfParseError ''Cannot call next after EOF group has been read''
                      (Some (lineNumber s)) None None), s))
      else
        let c = parseInt_line (line_at (lines s) (pointer s));
            s1 = s\<lparr>pointer := pointer s + 1, lineNumber := lineNumber s + 1\<rparr>
        in case line_at (lines s1) (pointer s1) of
             None \<Rightarrow> (Inl TypeError, s1)
           | Some l \<Rightarrow>
               (case parseGroupValue pf (lineNumber s1) c (trim l) of
                  Inl e \<Rightarrow> (Inl e, s1)
                | Inr v \<Rightarrow>
                    let g = \<lparr>code = c, gvalue = v\<rparr>;
                        s2 = s1\<lparr>pointer := pointer s1 + 1, lineNumber := lineNumber s1 + 1\<rparr>;
                        s3 = (if c = Num 0 \<and> v = VString ''EOF'' then s2\<lparr>eof := True\<rparr> else s2)
                    in (Inr g, s3\<lparr>lastReadGroup := Some g\<rparr>)))"

text \<open>\<open>peek()\<close> assigns no field.\<close>

definition peek :: "(string \<Rightarrow> 'f) \<Rightarrow> 'f scanner \<Rightarrow> (dxf_error + 'f group) \<times> 'f scanner" where
  "peek pf s =
     (if \<not> hasNext s then
        (if \<not> eof s
         then (Inl (new_DxfParseError ''Unexpected end of input: need more data''
                      (Some (lineNumber s)) None None), s)
         else (Inl (new_DxfParseError ''Cannot call peek after EOF group has been read''
                      (Some (lineNumber s)) None None), s))
      else
        let c = parseInt_line (line_at (lines s) (pointer s))
        in case line_at (lines s) (pointer s + 1) of
             None \<Rightarrow> (Inl TypeError, s)
           | Some l \<Rightarrow>
               (case parseGroupValue pf (lineNumber s) c (trim l) of
                  Inl e \<Rightarrow> (Inl e, s)
                | Inr v \<Rightarrow> (Inr \<lparr>code = c, gvalue = v\<rparr>, s)))"

definition rewind :: "int \<Rightarrow> 'f scanner \<Rightarrow> 'f scanner" where
  "rewind numberOfGroups s =
     (let s1 = s\<lparr>pointer := pointer s - numberOfGroups * 2\<rparr>;
          s2 = s1\<lparr>lineNumber := lineNumber s1 - numberOfGroups * 2\<rparr>
      in if lineNumber s2 < 0 then s2\<lparr>lineNumber := 0\<rparr> else s2)"

definition needsData :: "'f scanner \<Rightarrow> bool" where
  "needsData s = (length (lines s) = 0 \<or> pointer s \<ge> int (length (lines s)) - 1)"

text \<open>The methods that assign fields, and a scanner driven through a sequence of calls.\<close>

datatype call = AddChunk string | Finalize | Next | Peek | Rewind int

fun after_call :: "(string \<Rightarrow> 'f) \<Rightarrow> 'f scanner \<Rightarrow> call \<Rightarrow> 'f scanner" where
  "after_call pf s (AddChunk chunk) = snd (addChunk chunk s)"
| "after_call pf s Finalize = finalize s"
| "after_call pf s Next = snd (nextGroup pf s)"
| "after_call pf s Peek = snd (peek pf s)"
| "after_call pf s (Rewind n) = rewind n s"

definition after_calls :: "(string \<Rightarrow> 'f) \<Rightarrow> 'f scanner \<Rightarrow> call list \<Rightarrow> 'f scanner" where
  "after_calls pf s cs = foldl (after_call pf) s cs"

text \<open>Feeding a list of chunks, one \<open>addChunk\<close> each, then \<open>finalize\<close>.\<close>

definition feed :: "string list \<Rightarrow> 'f scanner \<Rightarrow> 'f scanner" where
  "feed chunks s = finalize (foldl (\<lambda>t chunk. snd (addChunk chunk t)) s chunks)"

text \<open>
  The one case in which \<open>parseGroupValue\<close> throws is excluded: a code in 290..299 with a
  value line that is neither \<open>"0"\<close> nor \<open>"1"\<close>.
\<close>

definition coercible :: "jsnum \<Rightarrow> string \<Rightarrow> bool" where
  "coercible c v = (if jge c 290 \<and> jle c 299 then v = ''0'' \<or> v = ''1'' else True)"

text \<open>
  A list of chunks, to be fed after the text \<open>pre\<close>, none of which starts with a line feed
  right after a carriage return that ends the text before it.
\<close>

definition ends_cr :: "string \<Rightarrow> bool" where
  "ends_cr a = (a \<noteq> [] \<and> last a = CR)"

definition starts_lf :: "string \<Rightarrow> bool" where
  "starts_lf b = (b \<noteq> [] \<and> hd b = LF)"

fun no_crlf_cut :: "string \<Rightarrow> string list \<Rightarrow> bool" where
  "no_crlf_cut pre [] = True"
| "no_crlf_cut pre (c # cs) = (\<not> (ends_cr pre \<and> starts_lf c) \<and> no_crlf_cut (pre @ c) cs)"

definition plain :: "string \<Rightarrow> bool" where
  "plain b = (CR \<notin> set b \<and> LF \<notin> set b)"

section \<open>The range table of the specification\<close>




section \<open>The incremental driver\<close>

text \<open>
  \<open>parseStreamIncremental\<close> creates a scanner and a promise and registers one listener for
  each of the stream events \<open>data\<close>, \<open>end\<close> and \<open>error\<close>. The host runs the listeners one
  at a time, in the order of the events, so the function is modelled by the listeners and a
  run over the list of events. A promise is settled at most once: \<open>resolve\<close> and \<open>reject\<close>
  do nothing on a promise that is no longer pending. \<open>parseFn\<close> is the caller's; it returns
  the scanner it was given, changed, and may throw.
\<close>

datatype promise = Pending | Fulfilled | Rejected dxf_error

definition resolve :: "promise \<Rightarrow> promise" where
  "resolve p = (case p of Pending \<Rightarrow> Fulfilled | _ \<Rightarrow> p)"

definition reject :: "dxf_error \<Rightarrow> promise \<Rightarrow> promise" where
  "reject e p = (case p of Pending \<Rightarrow> Rejected e | _ \<Rightarrow> p)"

record 'f parse_state =
  scanner_of :: "'f scanner"
  promise_of :: promise

text \<open>
  \<^verbatim>\<open>while (cond(scanner)) parseFn(scanner)\<close>, left by an exception of \<open>parseFn\<close>. The
  loop need not end (a \<open>parseFn\<close> that reads nothing repeats forever): \<open>None\<close>.
\<close>

partial_function (option) parse_while ::
  "('f scanner \<Rightarrow> bool) \<Rightarrow> ('f scanner \<Rightarrow> (dxf_error + unit) \<times> 'f scanner) \<Rightarrow> 'f scanner
     \<Rightarrow> ((dxf_error + unit) \<times> 'f scanner) option" where
  "parse_while cond parseFn s =
     (if cond s then
        (case parseFn s of
           (Inl e, s') \<Rightarrow> Some (Inl e, s')
         | (Inr u, s') \<Rightarrow> parse_while cond parseFn s')
      else Some (Inr (), s))"

text \<open>The \<open>catch\<close> clause of a listener: \<open>reject(err)\<close>.\<close>

definition catch_reject :: "(dxf_error + unit) \<Rightarrow> promise \<Rightarrow> promise" where
  "catch_reject r p = (case r of Inl e \<Rightarrow> reject e p | Inr u \<Rightarrow> p)"

definition on_data ::
  "('f scanner \<Rightarrow> (dxf_error + unit) \<times> 'f scanner) \<Rightarrow> string \<Rightarrow> 'f parse_state
     \<Rightarrow> 'f parse_state option" where
  "on_data parseFn chunk st =
     (case parse_while (\<lambda>s. \<not> needsData s \<and> \<not> isEOF s) parseFn
             (snd (addChunk chunk (scanner_of st))) of
        None \<Rightarrow> None
      | Some (r, s') \<Rightarrow> Some \<lparr>scanner_of = s', promise_of = catch_reject r (promise_of st)\<rparr>)"

definition on_end ::
  "('f scanner \<Rightarrow> (dxf_error + unit) \<times> 'f scanner) \<Rightarrow> 'f parse_state \<Rightarrow> 'f parse_state option" where
  "on_end parseFn st =
     (case parse_while (\<lambda>s. \<not> isEOF s \<and> hasNext s) parseFn (finalize (scanner_of st)) of
        None \<Rightarrow> None
      | Some (r, s') \<Rightarrow>
          Some \<lparr>scanner_of = s',
                promise_of = (case r of Inl e \<Rightarrow> reject e (promise_of st)
                                      | Inr u \<Rightarrow> resolve (promise_of st))\<rparr>)"

definition on_error :: "host_error \<Rightarrow> 'f parse_state \<Rightarrow> 'f parse_state" where
  "on_error err st =
     st\<lparr>promise_of := reject (new_DxfParseError ''Stream error'' None None (Some err))
                         (promise_of st)\<rparr>"

datatype stream_event = OnData string | OnEnd | OnError host_error

fun listener ::
  "('f scanner \<Rightarrow> (dxf_error + unit) \<times> 'f scanner) \<Rightarrow> stream_event \<Rightarrow> 'f parse_state
     \<Rightarrow> 'f parse_state option" where
  "listener parseFn (OnData chunk) st = on_data parseFn chunk st"
| "listener parseFn OnEnd st = on_end parseFn st"
| "listener parseFn (OnError err) st = Some (on_error err st)"

fun run_events ::
  "('f scanner \<Rightarrow> (dxf_error + unit) \<times> 'f scanner) \<Rightarrow> 'f parse_state \<Rightarrow> stream_event list
     \<Rightarrow> 'f parse_state option" where
  "run_events parseFn st [] = Some st"
| "run_events parseFn st (ev # evs) =
     (case listener parseFn ev st of
        None \<Rightarrow> None
      | Some st' \<Rightarrow> run_events parseFn st' evs)"

definition parseStreamIncremental ::
  "('f scanner \<Rightarrow> (dxf_error + unit) \<times> 'f scanner) \<Rightarrow> stream_event list
     \<Rightarrow> 'f parse_state option" where
  "parseStreamIncremental parseFn evs =
     run_events parseFn \<lparr>scanner_of = new_scanner, promise_of = Pending\<rparr> evs"

section \<open>Facts about the scanner\<close>

text \<open>What \<open>next()\<close> and \<open>peek()\<close> do when \<open>hasNext()\<close> is false: they throw before any assignment.\<close>

lemma next_fails_without_group:
  "\<not> hasNext s \<Longrightarrow>
   nextGroup pf s =
     (Inl (new_DxfParseError
             (if eof s then ''Cannot call next after EOF group has been read''
              else ''Unexpected end of input: need more data'')
             (Some (lineNumber s)) None None), s)"
  by (simp add: nextGroup_def)

lemma peek_fails_without_group:
  "\<not> hasNext s \<Longrightarrow>
   peek pf s =
     (Inl (new_DxfParseError
             (if eof s then ''Cannot call peek after EOF group has been read''
              else ''Unexpected end of input: need more data'')
             (Some (lineNumber s)) None None), s)"
  by (simp add: peek_def)

lemma peek_state: "snd (peek pf s) = s"
  by (simp add: peek_def Let_def split: option.split sum.split)

lemma hasNext_not_eof: "hasNext s \<Longrightarrow> \<not> eof s"
  by (cases "eof s") (simp_all add: hasNext_def)

text \<open>What they do when \<open>hasNext()\<close> is true.\<close>

lemma nextGroup_hasNext:
  "hasNext s \<Longrightarrow>
   nextGroup pf s =
     (case line_at (lines s) (pointer s + 1) of
        None \<Rightarrow> (Inl TypeError, s\<lparr>pointer := pointer s + 1, lineNumber := lineNumber s + 1\<rparr>)
      | Some l \<Rightarrow>
          (case parseGroupValue pf (lineNumber s + 1) (parseInt_line (line_at (lines s) (pointer s))) (trim l) of
             Inl e \<Rightarrow> (Inl e, s\<lparr>pointer := pointer s + 1, lineNumber := lineNumber s + 1\<rparr>)
           | Inr v \<Rightarrow>
               (Inr \<lparr>code = parseInt_line (line_at (lines s) (pointer s)), gvalue = v\<rparr>,
                s\<lparr>pointer := pointer s + 2, lineNumber := lineNumber s + 2,
                  eof := (parseInt_line (line_at (lines s) (pointer s)) = Num 0 \<and> v = VString ''EOF''),
                  lastReadGroup := Some \<lparr>code = parseInt_line (line_at (lines s) (pointer s)), gvalue = v\<rparr>\<rparr>)))"
  by (simp add: nextGroup_def Let_def hasNext_def split: option.split sum.split if_splits)

lemma peek_hasNext:
  "hasNext s \<Longrightarrow>
   peek pf s =
     (case line_at (lines s) (pointer s + 1) of
        None \<Rightarrow> (Inl TypeError, s)
      | Some l \<Rightarrow>
          (case parseGroupValue pf (lineNumber s) (parseInt_line (line_at (lines s) (pointer s))) (trim l) of
             Inl e \<Rightarrow> (Inl e, s)
           | Inr v \<Rightarrow> (Inr \<lparr>code = parseInt_line (line_at (lines s) (pointer s)), gvalue = v\<rparr>, s)))"
  by (simp add: peek_def Let_def)

lemma next_succeeds_hasNext: "nextGroup pf s = (Inr g, s') \<Longrightarrow> hasNext s"
  using next_fails_without_group [of s pf] by (cases "hasNext s") auto

text \<open>
  The line counter reaches \<open>parseGroupValue\<close> only through the error of \<open>parseBoolean\<close>, so
  the value returned, when one is returned, does not depend on it.
\<close>

lemma parseBoolean_ln:
  "map_sum id VBoolean (parseBoolean ln v) = Inr x \<longleftrightarrow> map_sum id VBoolean (parseBoolean ln' v) = Inr x"
  by (simp add: parseBoolean_def)

lemma parseGroupValue_other:
  assumes "\<not> (jge c 290 \<and> jle c 299)"
  shows "parseGroupValue pf ln c v = parseGroupValue pf ln' c v"
  unfolding parseGroupValue_def
  using assms by (intro if_cong refl) simp

lemma parseGroupValue_boolean:
  assumes "jge c 290" and "jle c 299"
  shows "parseGroupValue pf ln c v = map_sum id VBoolean (parseBoolean ln v)"
proof -
  from assms obtain n where c: "c = Num n" and n: "290 \<le> n" "n \<le> 299"
    by (cases c) (auto simp: jge_def jle_def)
  show ?thesis
    using n by (simp add: parseGroupValue_def c jge_def jle_def split del: if_split)
qed

lemma parseGroupValue_ln:
  "parseGroupValue pf ln c v = Inr x \<longleftrightarrow> parseGroupValue pf ln' c v = Inr x"
proof (cases "jge c 290 \<and> jle c 299")
  case True
  then show ?thesis
    by (simp add: parseGroupValue_boolean parseBoolean_ln [of ln v x ln'])
next
  case False
  then show ?thesis
    using parseGroupValue_other [of c pf ln v ln'] by simp
qed

text \<open>The EOF flag is only ever set; the line counter never becomes negative.\<close>

lemma eof_after_call: "eof s \<Longrightarrow> eof (after_call pf s c)"
proof (cases c)
  case (AddChunk x)
  then show "eof s \<Longrightarrow> ?thesis" by (simp add: addChunk_def Let_def)
next
  case Finalize
  then show "eof s \<Longrightarrow> ?thesis" by (simp add: finalize_def)
next
  case Next
  assume "eof s"
  then have "\<not> hasNext s" by (simp add: hasNext_def)
  with \<open>eof s\<close> Next show ?thesis by (simp add: next_fails_without_group)
next
  case Peek
  then show "eof s \<Longrightarrow> ?thesis" by (simp add: peek_state)
next
  case (Rewind n)
  then show "eof s \<Longrightarrow> ?thesis" by (simp add: rewind_def Let_def)
qed

lemma eof_after_calls: "eof s \<Longrightarrow> eof (after_calls pf s cs)"
  unfolding after_calls_def
  by (induction cs arbitrary: s) (simp_all add: eof_after_call)

lemma next_sets_eof:
  assumes "nextGroup pf s = (Inr g, s')" and "code g = Num 0" and "gvalue g = VString ''EOF''"
  shows "eof s'"
proof -
  have h: "hasNext s" using assms(1) by (rule next_succeeds_hasNext)
  show ?thesis
    using assms unfolding nextGroup_hasNext [OF h]
    by (auto split: option.splits sum.splits)
qed

lemma lineNumber_after_next: "0 \<le> lineNumber s \<Longrightarrow> 0 \<le> lineNumber (snd (nextGroup pf s))"
proof (cases "hasNext s")
  case True
  assume "0 \<le> lineNumber s"
  then show ?thesis
    by (simp add: nextGroup_hasNext [OF True] split: option.split sum.split)
next
  case False
  assume "0 \<le> lineNumber s"
  then show ?thesis by (simp add: next_fails_without_group [OF False])
qed

lemma lineNumber_after_call: "0 \<le> lineNumber s \<Longrightarrow> 0 \<le> lineNumber (after_call pf s c)"
  by (cases c)
     (simp_all add: addChunk_def Let_def finalize_def peek_state rewind_def lineNumber_after_next)

lemma lineNumber_after_calls: "0 \<le> lineNumber s \<Longrightarrow> 0 \<le> lineNumber (after_calls pf s cs)"
  unfolding after_calls_def
  by (induction cs arbitrary: s) (simp_all add: lineNumber_after_call)

lemma lineNumber_nonneg: "0 \<le> lineNumber (after_calls pf new_scanner cs)"
  by (rule lineNumber_after_calls) (simp add: new_scanner_def)

section \<open>The claims\<close>

text \<open>
  C10. \<open>next()\<close> is not atomic when the value cannot be coerced. Whenever a group is
  available and \<open>next()\<close> throws, it throws after the code line has been read: the pointer and
  the line counter are one past their old values, and nothing else has changed. The error
  is then the one of the coercion (an invalid boolean literal for a code in 290..299), or
  the host's \<open>TypeError\<close> for a value line that is \<open>undefined\<close>.
\<close>

theorem next_not_atomic:
  assumes "hasNext s" and "nextGroup pf s = (Inl e, s')"
  shows "s' = s\<lparr>pointer := pointer s + 1, lineNumber := lineNumber s + 1\<rparr>"
  using assms(2) unfolding nextGroup_hasNext [OF assms(1)]
  by (simp split: option.splits sum.splits)

theorem next_not_atomic_witness:
  "hasNext ((new_scanner :: string scanner)\<lparr>lines := [''290'', ''invalid'']\<rparr>) \<and>
   nextGroup id ((new_scanner :: string scanner)\<lparr>lines := [''290'', ''invalid'']\<rparr>) =
     (Inl (DxfParseError
            (''Value '' @ CHR 0x27 # ''invalid'' @ CHR 0x27 # '' cannot be cast to Boolean type | line: 1'')
            (Some 1) None None),
      new_scanner\<lparr>lines := [''290'', ''invalid''], pointer := 1, lineNumber := 1\<rparr>) \<and>
   (new_scanner :: string scanner)\<lparr>lines := [''290'', ''invalid''], pointer := 1, lineNumber := 1\<rparr> =
     new_scanner\<lparr>lines := [''290'', ''invalid'']\<rparr>
       \<lparr>pointer := pointer ((new_scanner :: string scanner)\<lparr>lines := [''290'', ''invalid'']\<rparr>) + 1,
        lineNumber := lineNumber ((new_scanner :: string scanner)\<lparr>lines := [''290'', ''invalid'']\<rparr>) + 1\<rparr>"
proof -
  let ?s = "(new_scanner :: string scanner)\<lparr>lines := [''290'', ''invalid'']\<rparr>"
  have h1: "hasNext ?s" by code_simp
  have h2: "nextGroup id ?s =
     (Inl (DxfParseError
            (''Value '' @ CHR 0x27 # ''invalid'' @ CHR 0x27 # '' cannot be cast to Boolean type | line: 1'')
            (Some 1) None None),
      new_scanner\<lparr>lines := [''290'', ''invalid''], pointer := 1, lineNumber := 1\<rparr>)"
    by code_simp
  show ?thesis
    using h1 h2 next_not_atomic [OF h1 h2] by (intro conjI)
qed

text \<open>When the coercion returns a value.\<close>

lemma not_isl_ifI: "(a \<Longrightarrow> \<not> isl x) \<Longrightarrow> (\<not> a \<Longrightarrow> \<not> isl y) \<Longrightarrow> \<not> isl (if a then x else y)"
  by simp

lemma parseGroupValue_returns:
  "(\<exists>x. parseGroupValue pf ln c v = Inr x) \<longleftrightarrow> coercible c v"
proof (cases "jge c 290 \<and> jle c 299")
  case True
  then show ?thesis
    by (auto simp: parseGroupValue_boolean coercible_def parseBoolean_def)
next
  case False
  then have "\<not> isl (parseGroupValue pf ln c v)"
    unfolding parseGroupValue_def by (intro not_isl_ifI) simp_all
  then have r: "\<exists>x. parseGroupValue pf ln c v = Inr x"
    by (cases "parseGroupValue pf ln c v") auto
  from False have "coercible c v"
    unfolding coercible_def by (simp only: if_False)
  with r show ?thesis by (simp only: simp_thms)
qed

text \<open>
  C7 as it is stated fails: with the lines \<open>290\<close>, \<open>invalid\<close> buffered a complete group is
  available (\<open>hasNext()\<close> is true), and \<open>peek()\<close> throws instead of returning a group.
\<close>

theorem peek_throws_counterexample:
  "hasNext ((new_scanner :: string scanner)\<lparr>lines := [''290'', ''invalid'']\<rparr>) \<and>
   fst (peek id ((new_scanner :: string scanner)\<lparr>lines := [''290'', ''invalid'']\<rparr>)) =
     Inl (DxfParseError
            (''Value '' @ CHR 0x27 # ''invalid'' @ CHR 0x27 # '' cannot be cast to Boolean type | line: 0'')
            (Some 0) None None)"
  by code_simp

text \<open>
  C7, as the code has it. Whenever a complete group is available (\<open>hasNext()\<close>: two unread
  lines and EOF not read), \<open>peek()\<close> leaves the whole scanner as it was, pointer, line
  counter, EOF flag and lines included, and it returns a group exactly when the \<open>next()\<close>
  that follows returns one, and then the same group, code and value. It does return a group
  when the pointer is not negative and the value line can be coerced: for a code in
  290..299 the trimmed line is \<open>"0"\<close> or \<open>"1"\<close>.
\<close>

theorem peek_agrees_with_next:
  assumes "hasNext s"
  shows "snd (peek pf s) = s \<and>
         (\<forall>g. fst (peek pf s) = Inr g \<longleftrightarrow> fst (nextGroup pf (snd (peek pf s))) = Inr g) \<and>
         (0 \<le> pointer s \<and>
          coercible (parseInt_line (line_at (lines s) (pointer s)))
                    (trim (lines s ! nat (pointer s + 1))) \<longrightarrow>
            (\<exists>g. fst (peek pf s) = Inr g))"
proof -
  let ?c = "parseInt_line (line_at (lines s) (pointer s))"
  have st: "snd (peek pf s) = s" by (rule peek_state)
  have agree: "fst (peek pf s) = Inr g \<longleftrightarrow> fst (nextGroup pf s) = Inr g" for g
  proof (cases "line_at (lines s) (pointer s + 1)")
    case None
    then show ?thesis
      by (simp add: nextGroup_hasNext [OF assms] peek_hasNext [OF assms])
  next
    case (Some l)
    let ?A = "parseGroupValue pf (lineNumber s) ?c (trim l)"
    let ?B = "parseGroupValue pf (lineNumber s + 1) ?c (trim l)"
    have ln: "?A = Inr v \<longleftrightarrow> ?B = Inr v" for v
      by (rule parseGroupValue_ln)
    show ?thesis
    proof (cases ?A)
      case (Inl e)
      then have "\<exists>e'. ?B = Inl e'" using ln by (cases ?B) auto
      then show ?thesis
        using Inl Some by (auto simp: nextGroup_hasNext [OF assms] peek_hasNext [OF assms])
    next
      case (Inr v)
      then have "?B = Inr v" using ln by simp
      then show ?thesis
        using Inr Some by (auto simp: nextGroup_hasNext [OF assms] peek_hasNext [OF assms])
    qed
  qed
  have ret: "\<exists>g. fst (peek pf s) = Inr g"
    if p: "0 \<le> pointer s" and co: "coercible ?c (trim (lines s ! nat (pointer s + 1)))"
  proof -
    from assms have "pointer s \<le> int (length (lines s)) - 2"
      by (simp add: hasNext_def split: if_splits)
    with p have l: "line_at (lines s) (pointer s + 1) = Some (lines s ! nat (pointer s + 1))"
      by (simp add: line_at_def)
    from co obtain x where
      "parseGroupValue pf (lineNumber s) ?c (trim (lines s ! nat (pointer s + 1))) = Inr x"
      using parseGroupValue_returns [of pf "lineNumber s" ?c] by blast
    then show ?thesis
      by (simp add: peek_hasNext [OF assms] l)
  qed
  from st agree ret show ?thesis by simp
qed

theorem peek_agrees_with_next_witness:
  "hasNext ((new_scanner :: string scanner)\<lparr>lines := [''0'', ''SECTION'']\<rparr>) \<and>
   0 \<le> pointer ((new_scanner :: string scanner)\<lparr>lines := [''0'', ''SECTION'']\<rparr>) \<and>
   coercible
     (parseInt_line (line_at (lines ((new_scanner :: string scanner)\<lparr>lines := [''0'', ''SECTION'']\<rparr>))
        (pointer ((new_scanner :: string scanner)\<lparr>lines := [''0'', ''SECTION'']\<rparr>))))
     (trim (lines ((new_scanner :: string scanner)\<lparr>lines := [''0'', ''SECTION'']\<rparr>) !
        nat (pointer ((new_scanner :: string scanner)\<lparr>lines := [''0'', ''SECTION'']\<rparr>) + 1))) \<and>
   snd (peek id ((new_scanner :: string scanner)\<lparr>lines := [''0'', ''SECTION'']\<rparr>)) =
     new_scanner\<lparr>lines := [''0'', ''SECTION'']\<rparr> \<and>
   fst (peek id ((new_scanner :: string scanner)\<lparr>lines := [''0'', ''SECTION'']\<rparr>)) =
     Inr \<lparr>code = Num 0, gvalue = VString ''SECTION''\<rparr> \<and>
   fst (nextGroup id (snd (peek id ((new_scanner :: string scanner)\<lparr>lines := [''0'', ''SECTION'']\<rparr>)))) =
     Inr \<lparr>code = Num 0, gvalue = VString ''SECTION''\<rparr>"
proof -
  let ?s = "(new_scanner :: string scanner)\<lparr>lines := [''0'', ''SECTION'']\<rparr>"
  have h: "hasNext ?s" by code_simp
  have h2: "0 \<le> pointer ?s" by (simp add: new_scanner_def)
  have h3: "coercible (parseInt_line (line_at (lines ?s) (pointer ?s)))
              (trim (lines ?s ! nat (pointer ?s + 1)))"
    by code_simp
  have p: "fst (peek id ?s) = Inr \<lparr>code = Num 0, gvalue = VString ''SECTION''\<rparr>" by code_simp
  from peek_agrees_with_next [OF h, of id] p
  have "snd (peek id ?s) = ?s"
    and "fst (nextGroup id (snd (peek id ?s))) = Inr \<lparr>code = Num 0, gvalue = VString ''SECTION''\<rparr>"
    by blast+
  with h h2 h3 p show ?thesis by (intro conjI)
qed

text \<open>
  C6. EOF is permanent. Once \<open>next()\<close> has returned the group with code 0 and value
  \<open>"EOF"\<close>, then after any further sequence of calls (\<open>addChunk\<close>, \<open>finalize\<close>, \<open>next\<close>, \<open>peek\<close>,
  \<open>rewind\<close>, in any order and number) \<open>isEOF()\<close> is true, \<open>hasNext()\<close> is false, and
  \<open>next()\<close> and \<open>peek()\<close> throw their error for a read after EOF: no group is returned.
\<close>

theorem eof_permanent:
  assumes "nextGroup pf s = (Inr g, s')" and "code g = Num 0" and "gvalue g = VString ''EOF''"
  shows "isEOF (after_calls pf s' cs) \<and> \<not> hasNext (after_calls pf s' cs) \<and>
         fst (nextGroup pf (after_calls pf s' cs)) =
           Inl (new_DxfParseError ''Cannot call next after EOF group has been read''
                  (Some (lineNumber (after_calls pf s' cs))) None None) \<and>
         fst (peek pf (after_calls pf s' cs)) =
           Inl (new_DxfParseError ''Cannot call peek after EOF group has been read''
                  (Some (lineNumber (after_calls pf s' cs))) None None)"
proof -
  let ?t = "after_calls pf s' cs"
  have e: "eof ?t" using next_sets_eof [OF assms] by (rule eof_after_calls)
  then have n: "\<not> hasNext ?t" by (simp add: hasNext_def)
  show ?thesis
    using e n by (simp add: isEOF_def next_fails_without_group peek_fails_without_group)
qed

theorem eof_permanent_witness:
  "nextGroup id ((new_scanner :: string scanner)\<lparr>lines := [''0'', ''EOF'']\<rparr>) =
     (Inr \<lparr>code = Num 0, gvalue = VString ''EOF''\<rparr>,
      new_scanner\<lparr>lines := [''0'', ''EOF''], pointer := 2, eof := True, lineNumber := 2,
        lastReadGroup := Some \<lparr>code = Num 0, gvalue = VString ''EOF''\<rparr>\<rparr>) \<and>
   code \<lparr>code = Num 0, gvalue = VString ''EOF'' :: string typed_value\<rparr> = Num 0 \<and>
   gvalue \<lparr>code = Num 0, gvalue = VString ''EOF'' :: string typed_value\<rparr> = VString ''EOF'' \<and>
   lines (after_calls id
     ((new_scanner :: string scanner)\<lparr>lines := [''0'', ''EOF''], pointer := 2, eof := True, lineNumber := 2,
        lastReadGroup := Some \<lparr>code = Num 0, gvalue = VString ''EOF''\<rparr>\<rparr>)
     [AddChunk (''0'' @ [LF] @ ''LINE'' @ [LF]), Rewind 2, Next, Peek, Finalize]) =
       [''0'', ''EOF'', ''0'', ''LINE''] \<and>
   pointer (after_calls id
     ((new_scanner :: string scanner)\<lparr>lines := [''0'', ''EOF''], pointer := 2, eof := True, lineNumber := 2,
        lastReadGroup := Some \<lparr>code = Num 0, gvalue = VString ''EOF''\<rparr>\<rparr>)
     [AddChunk (''0'' @ [LF] @ ''LINE'' @ [LF]), Rewind 2, Next, Peek, Finalize]) = - 2 \<and>
   isEOF (after_calls id
     ((new_scanner :: string scanner)\<lparr>lines := [''0'', ''EOF''], pointer := 2, eof := True, lineNumber := 2,
        lastReadGroup := Some \<lparr>code = Num 0, gvalue = VString ''EOF''\<rparr>\<rparr>)
     [AddChunk (''0'' @ [LF] @ ''LINE'' @ [LF]), Rewind 2, Next, Peek, Finalize]) \<and>
   \<not> hasNext (after_calls id
     ((new_scanner :: string scanner)\<lparr>lines := [''0'', ''EOF''], pointer := 2, eof := True, lineNumber := 2,
        lastReadGroup := Some \<lparr>code = Num 0, gvalue = VString ''EOF''\<rparr>\<rparr>)
     [AddChunk (''0'' @ [LF] @ ''LINE'' @ [LF]), Rewind 2, Next, Peek, Finalize])"
proof -
  let ?s = "(new_scanner :: string scanner)\<lparr>lines := [''0'', ''EOF'']\<rparr>"
  let ?g = "\<lparr>code = Num 0, gvalue = VString ''EOF'' :: string typed_value\<rparr>"
  let ?s' = "(new_scanner :: string scanner)\<lparr>lines := [''0'', ''EOF''], pointer := 2, eof := True,
     lineNumber := 2, lastReadGroup := Some ?g\<rparr>"
  let ?cs = "[AddChunk (''0'' @ [LF] @ ''LINE'' @ [LF]), Rewind 2, Next, Peek, Finalize]"
  have h1: "nextGroup id ?s = (Inr ?g, ?s')" by code_simp
  have h2: "code ?g = Num 0" by simp
  have h3: "gvalue ?g = VString ''EOF''" by simp
  have l: "lines (after_calls id ?s' ?cs) = [''0'', ''EOF'', ''0'', ''LINE'']" by code_simp
  have p: "pointer (after_calls id ?s' ?cs) = - 2" by code_simp
  from eof_permanent [OF h1 h2 h3, of ?cs]
  have "isEOF (after_calls id ?s' ?cs)" and "\<not> hasNext (after_calls id ?s' ?cs)"
    by blast+
  with h1 h2 h3 l p show ?thesis by (intro conjI)
qed

text \<open>
  C8, as the code has it. For a scanner whose line counter is not negative (every scanner
  reached from a new one), if \<open>next()\<close> returns a group other than the EOF group, then after
  \<open>rewind(1)\<close> the line counter is what it was before that \<open>next()\<close>, and the \<open>next()\<close> that
  follows returns the same group and leaves the scanner in the same state, line counter
  included. The EOF group is excluded: \<open>rewind\<close> does not clear the EOF flag.
\<close>

theorem rewind_after_next:
  assumes "0 \<le> lineNumber s" and "nextGroup pf s = (Inr g, s')"
      and "\<not> (code g = Num 0 \<and> gvalue g = VString ''EOF'')"
  shows "getCurrentLineNumber (rewind 1 s') = getCurrentLineNumber s \<and>
         nextGroup pf (rewind 1 s') = (Inr g, s')"
proof -
  have h: "hasNext s" using assms(2) by (rule next_succeeds_hasNext)
  then have ne: "\<not> eof s" by (rule hasNext_not_eof)
  from assms(2,3) obtain l v where
    l: "line_at (lines s) (pointer s + 1) = Some l" and
    v: "parseGroupValue pf (lineNumber s + 1) (parseInt_line (line_at (lines s) (pointer s))) (trim l) = Inr v" and
    g: "g = \<lparr>code = parseInt_line (line_at (lines s) (pointer s)), gvalue = v\<rparr>" and
    s': "s' = s\<lparr>pointer := pointer s + 2, lineNumber := lineNumber s + 2,
                  eof := False, lastReadGroup := Some g\<rparr>"
    unfolding nextGroup_hasNext [OF h]
    by (auto split: option.splits sum.splits)
  let ?r = "rewind 1 s'"
  have r: "?r = s\<lparr>lastReadGroup := Some g\<rparr>"
    using assms(1) ne by (simp add: rewind_def s' Let_def)
  let ?t = "s\<lparr>lastReadGroup := Some g\<rparr>"
  have hr: "hasNext ?t" using h ne by (simp add: hasNext_def)
  have "nextGroup pf ?t = (Inr g, s')"
    unfolding nextGroup_hasNext [OF hr] using l v assms(3)
    by (simp add: g s')
  then have "nextGroup pf ?r = (Inr g, s')" by (simp only: r)
  then show ?thesis by (simp add: getCurrentLineNumber_def r)
qed

theorem rewind_after_next_witness:
  "0 \<le> lineNumber ((new_scanner :: string scanner)\<lparr>lines := [''0'', ''SECTION'', ''0'', ''EOF'']\<rparr>) \<and>
   nextGroup id ((new_scanner :: string scanner)\<lparr>lines := [''0'', ''SECTION'', ''0'', ''EOF'']\<rparr>) =
     (Inr \<lparr>code = Num 0, gvalue = VString ''SECTION''\<rparr>,
      new_scanner\<lparr>lines := [''0'', ''SECTION'', ''0'', ''EOF''], pointer := 2, lineNumber := 2,
        lastReadGroup := Some \<lparr>code = Num 0, gvalue = VString ''SECTION''\<rparr>\<rparr>) \<and>
   \<not> (code \<lparr>code = Num 0, gvalue = VString ''SECTION'' :: string typed_value\<rparr> = Num 0 \<and>
      gvalue \<lparr>code = Num 0, gvalue = VString ''SECTION'' :: string typed_value\<rparr> = VString ''EOF'') \<and>
   getCurrentLineNumber (rewind 1
      ((new_scanner :: string scanner)\<lparr>lines := [''0'', ''SECTION'', ''0'', ''EOF''], pointer := 2,
         lineNumber := 2, lastReadGroup := Some \<lparr>code = Num 0, gvalue = VString ''SECTION''\<rparr>\<rparr>)) =
     getCurrentLineNumber ((new_scanner :: string scanner)\<lparr>lines := [''0'', ''SECTION'', ''0'', ''EOF'']\<rparr>) \<and>
   nextGroup id (rewind 1
      ((new_scanner :: string scanner)\<lparr>lines := [''0'', ''SECTION'', ''0'', ''EOF''], pointer := 2,
         lineNumber := 2, lastReadGroup := Some \<lparr>code = Num 0, gvalue = VString ''SECTION''\<rparr>\<rparr>)) =
     (Inr \<lparr>code = Num 0, gvalue = VString ''SECTION''\<rparr>,
      new_scanner\<lparr>lines := [''0'', ''SECTION'', ''0'', ''EOF''], pointer := 2, lineNumber := 2,
        lastReadGroup := Some \<lparr>code = Num 0, gvalue = VString ''SECTION''\<rparr>\<rparr>)"
proof -
  let ?s = "(new_scanner :: string scanner)\<lparr>lines := [''0'', ''SECTION'', ''0'', ''EOF'']\<rparr>"
  let ?g = "\<lparr>code = Num 0, gvalue = VString ''SECTION'' :: string typed_value\<rparr>"
  let ?s' = "(new_scanner :: string scanner)\<lparr>lines := [''0'', ''SECTION'', ''0'', ''EOF''], pointer := 2,
     lineNumber := 2, lastReadGroup := Some ?g\<rparr>"
  have h1: "0 \<le> lineNumber ?s" by (simp add: new_scanner_def)
  have h2: "nextGroup id ?s = (Inr ?g, ?s')" by code_simp
  have h3: "\<not> (code ?g = Num 0 \<and> gvalue ?g = VString ''EOF'')" by simp
  from rewind_after_next [OF h1 h2 h3]
  have "getCurrentLineNumber (rewind 1 ?s') = getCurrentLineNumber ?s"
    and "nextGroup id (rewind 1 ?s') = (Inr ?g, ?s')"
    by blast+
  with h1 h2 h3 show ?thesis by (intro conjI)
qed

text \<open>
  C8 as it is stated fails for the state in which \<open>next()\<close> returns the EOF group: after
  \<open>rewind(1)\<close> the following \<open>next()\<close> throws instead of returning the group again.
\<close>

theorem rewind_after_eof_counterexample:
  "fst (nextGroup id ((new_scanner :: string scanner)\<lparr>lines := [''0'', ''EOF'']\<rparr>)) =
     Inr \<lparr>code = Num 0, gvalue = VString ''EOF''\<rparr> \<and>
   fst (nextGroup id (rewind 1 (snd (nextGroup id
          ((new_scanner :: string scanner)\<lparr>lines := [''0'', ''EOF'']\<rparr>))))) =
     Inl (DxfParseError ''Cannot call next after EOF group has been read | line: 0''
            (Some 0) None None)"
  by code_simp







text \<open>\<open>parseInt\<close> on a few literals; beyond \<open>2^53\<close> the integer is rounded to a double.\<close>

lemma parseInt_literals:
  "parseInt ''70'' = Num 70 \<and> parseInt '' -12ab'' = Num (- 12) \<and> parseInt ''0x1F'' = Num 31 \<and>
   parseInt ''abc'' = NaN \<and> parseInt ''undefined'' = NaN"
  by code_simp

lemma parseInt_rounds:
  "parseInt ''9007199254740993'' = Num 9007199254740992 \<and>
   parseInt ''-9007199254740995'' = Num (- 9007199254740996)"
  by (simp add: parseInt_def is_ws_def is_digit_def digit_value_def to_double_def
        bit_length.simps Let_def)


text \<open>The two literals of \<open>parseBoolean\<close>, and the class of the error it throws.\<close>

lemma parseBoolean_literals:
  "parseBoolean ln ''0'' = Inr False \<and> parseBoolean ln ''1'' = Inr True \<and>
   (\<forall>b. parseBoolean ln v = Inr b \<longleftrightarrow> (v = ''0'' \<and> \<not> b) \<or> (v = ''1'' \<and> b))"
  by (auto simp: parseBoolean_def)

lemma parseBoolean_error_kind:
  "parseBoolean ln v = Inl e \<Longrightarrow> is_ParseError e \<and> \<not> is_ValueError e \<and> \<not> is_ScannerError e"
  by (auto simp: parseBoolean_def new_DxfParseError_def split: if_splits)

text \<open>
  C3. \<open>parseBoolean\<close> maps \<open>"0"\<close> to \<open>false\<close> and \<open>"1"\<close> to \<open>true\<close>. For the literal
  \<open>"invalid"\<close> it throws a \<open>DxfParseError\<close> whose fields are the formatted message and the
  line counter: it is not a \<open>DxfValueError\<close>, and it has no \<open>code\<close> and no \<open>rawValue\<close> field.
  The same error leaves \<open>next()\<close> on the lines \<open>290\<close>, \<open>invalid\<close>.
\<close>

theorem invalid_boolean_is_parse_error:
  "parseBoolean 1 ''0'' = Inr False \<and> parseBoolean 1 ''1'' = Inr True \<and>
   parseBoolean 1 ''invalid'' =
     Inl (DxfParseError
            (''Value '' @ CHR 0x27 # ''invalid'' @ CHR 0x27 # '' cannot be cast to Boolean type | line: 1'')
            (Some 1) None None) \<and>
   is_ValueError (DxfParseError
            (''Value '' @ CHR 0x27 # ''invalid'' @ CHR 0x27 # '' cannot be cast to Boolean type | line: 1'')
            (Some 1) None None) = False \<and>
   fst (nextGroup id ((new_scanner :: string scanner)\<lparr>lines := [''290'', ''invalid'']\<rparr>)) =
     Inl (DxfParseError
            (''Value '' @ CHR 0x27 # ''invalid'' @ CHR 0x27 # '' cannot be cast to Boolean type | line: 1'')
            (Some 1) None None)"
  by code_simp

text \<open>The class of the error of \<open>next()\<close> and \<open>peek()\<close> when no group is available.\<close>

lemma next_peek_error_kind:
  assumes "\<not> hasNext s"
  shows "\<exists>e. fst (nextGroup pf s) = Inl e \<and> is_ParseError e \<and> \<not> is_ScannerError e"
    and "\<exists>e. fst (peek pf s) = Inl e \<and> is_ParseError e \<and> \<not> is_ScannerError e"
  using assms
  by (simp_all add: next_fails_without_group peek_fails_without_group new_DxfParseError_def)

text \<open>
  C4. On a new scanner (no line buffered, EOF not read) \<open>next()\<close> and \<open>peek()\<close> throw a
  \<open>DxfParseError\<close> with the message \<open>Unexpected end of input: need more data\<close> and the line
  counter; after the EOF group they throw a \<open>DxfParseError\<close> again, with one message for
  \<open>next\<close> and another for \<open>peek\<close>. None of them is a \<open>DxfScannerError\<close>.
\<close>

theorem need_more_data_is_parse_error:
  "fst (nextGroup id (new_scanner :: string scanner)) =
     Inl (DxfParseError ''Unexpected end of input: need more data | line: 0'' (Some 0) None None) \<and>
   fst (peek id (new_scanner :: string scanner)) =
     Inl (DxfParseError ''Unexpected end of input: need more data | line: 0'' (Some 0) None None) \<and>
   is_ScannerError
     (DxfParseError ''Unexpected end of input: need more data | line: 0'' (Some 0) None None) = False \<and>
   fst (nextGroup id (snd (nextGroup id ((new_scanner :: string scanner)\<lparr>lines := [''0'', ''EOF'']\<rparr>)))) =
     Inl (DxfParseError ''Cannot call next after EOF group has been read | line: 2'' (Some 2) None None) \<and>
   fst (peek id (snd (nextGroup id ((new_scanner :: string scanner)\<lparr>lines := [''0'', ''EOF'']\<rparr>)))) =
     Inl (DxfParseError ''Cannot call peek after EOF group has been read | line: 2'' (Some 2) None None)"
  by code_simp

text \<open>
  What \<open>rewind\<close> assigns, for every \<open>n\<close>; and no other call moves the pointer or the line
  counter backward.
\<close>

lemma rewind_effect:
  "rewind n s =
     s\<lparr>pointer := pointer s - 2 * n, lineNumber := max 0 (lineNumber s - 2 * n)\<rparr>"
  by (simp add: rewind_def Let_def max_def)

lemma position_not_decreased:
  assumes "\<forall>n. c \<noteq> Rewind n"
  shows "pointer s \<le> pointer (after_call pf s c) \<and> lineNumber s \<le> lineNumber (after_call pf s c)"
proof (cases c)
  case (AddChunk x)
  then show ?thesis by (simp add: addChunk_def Let_def)
next
  case Finalize
  then show ?thesis by (simp add: finalize_def)
next
  case Next
  show ?thesis
  proof (cases "hasNext s")
    case True
    then show ?thesis
      by (simp add: Next nextGroup_hasNext split: option.split sum.split)
  next
    case False
    then show ?thesis by (simp add: Next next_fails_without_group)
  qed
next
  case Peek
  then show ?thesis by (simp add: peek_state)
next
  case (Rewind n)
  with assms show ?thesis by simp
qed

text \<open>
  C5. \<open>rewind(n)\<close> takes \<open>2n\<close> from the pointer and from the line counter and sets a
  negative line counter to zero, but not a negative pointer. On a new scanner \<open>rewind(1)\<close>
  leaves the pointer at \<open>-2\<close> with the line counter at \<open>0\<close>; then \<open>hasNext()\<close> is true with no
  line buffered, and \<open>next()\<close> ends in the host's \<open>TypeError\<close>.
\<close>

theorem rewind_pointer_not_clamped:
  "pointer (rewind 1 (new_scanner :: string scanner)) = - 2 \<and>
   lineNumber (rewind 1 (new_scanner :: string scanner)) = 0 \<and>
   lines (rewind 1 (new_scanner :: string scanner)) = [] \<and>
   hasNext (rewind 1 (new_scanner :: string scanner)) \<and>
   fst (nextGroup id (rewind 1 (new_scanner :: string scanner))) = Inl TypeError"
  by code_simp

text \<open>
  Splitting a text in two pieces: unless the cut separates a carriage return from the line
  feed after it, the lines of the whole are the complete lines of the first piece, followed
  by the lines of its last fragment continued by the second piece. So feeding a text in
  chunks leaves the scanner as feeding it in one chunk does, for every such chunking.
\<close>

lemma split_lines_nonempty: "split_lines s \<noteq> []"
  by (induction s rule: split_lines.induct) (auto split: list.split)

lemma split_lines_plain: "plain b \<Longrightarrow> split_lines b = [b]"
  by (induction b rule: split_lines.induct) (auto simp: plain_def)

lemma split_lines_append:
  "\<not> (ends_cr a \<and> starts_lf b) \<Longrightarrow>
   split_lines (a @ b) = butlast (split_lines a) @ split_lines (last (split_lines a) @ b)"
proof (induction a rule: split_lines.induct)
  case 1
  show ?case by simp
next
  case (2 c cs)
  consider (crlf) "c = CR" "cs \<noteq> []" "hd cs = LF"
    | (sep) "\<not> (c = CR \<and> cs \<noteq> [] \<and> hd cs = LF)" "c = CR \<or> c = LF"
    | (chr) "c \<noteq> CR" "c \<noteq> LF"
    by blast
  then show ?case
  proof cases
    case crlf
    then obtain t where cs: "cs = LF # t" by (cases cs) auto
    have cond: "\<not> (ends_cr t \<and> starts_lf b)"
      using "2.prems" by (auto simp: ends_cr_def cs)
    have IH: "split_lines (t @ b) = butlast (split_lines t) @ split_lines (last (split_lines t) @ b)"
      using "2.IH"(1) crlf cond by (simp add: cs)
    show ?thesis
      using crlf by (simp add: cs IH split_lines_nonempty)
  next
    case sep
    have cond: "\<not> (ends_cr cs \<and> starts_lf b)"
      using "2.prems" by (auto simp: ends_cr_def)
    have IH: "split_lines (cs @ b) = butlast (split_lines cs) @ split_lines (last (split_lines cs) @ b)"
      using "2.IH"(2) sep cond by simp
    have nolf: "\<not> (c = CR \<and> cs @ b \<noteq> [] \<and> hd (cs @ b) = LF)"
    proof (cases cs)
      case Nil
      with "2.prems" show ?thesis by (auto simp: ends_cr_def starts_lf_def)
    next
      case (Cons x xs)
      with sep show ?thesis by auto
    qed
    have l: "split_lines ((c # cs) @ b) = [] # split_lines (cs @ b)"
    proof -
      have "split_lines (c # (cs @ b)) =
            (if c = CR \<and> cs @ b \<noteq> [] \<and> hd (cs @ b) = LF then [] # split_lines (tl (cs @ b))
             else [] # split_lines (cs @ b))"
        using sep(2) by (subst split_lines.simps) (simp only: if_True)
      also have "\<dots> = [] # split_lines (cs @ b)"
        using nolf by (simp only: if_False)
      finally show ?thesis by (simp only: append_Cons)
    qed
    have r: "split_lines (c # cs) = [] # split_lines cs"
      using sep by auto
    show ?thesis
      unfolding l r by (simp add: IH split_lines_nonempty)
  next
    case chr
    have cond: "\<not> (ends_cr cs \<and> starts_lf b)"
      using "2.prems" chr by (auto simp: ends_cr_def)
    have IH: "split_lines (cs @ b) = butlast (split_lines cs) @ split_lines (last (split_lines cs) @ b)"
      using "2.IH"(3) chr cond by simp
    obtain l ls where sl: "split_lines cs = l # ls"
      using split_lines_nonempty [of cs] by (cases "split_lines cs") auto
    obtain m ms where sm: "split_lines (last (split_lines cs) @ b) = m # ms"
      using split_lines_nonempty [of "last (split_lines cs) @ b"]
      by (cases "split_lines (last (split_lines cs) @ b)") auto
    show ?thesis
    proof (cases ls)
      case Nil
      then show ?thesis
        using chr sl sm IH by simp
    next
      case (Cons x xs)
      then show ?thesis
        using chr sl sm IH by simp
    qed
  qed
qed

lemma addChunk_addChunk:
  assumes "\<not> (ends_cr (buffer s @ c1) \<and> starts_lf c2)"
  shows "snd (addChunk c2 (snd (addChunk c1 s))) = snd (addChunk (c1 @ c2) s)"
proof -
  let ?a = "split_lines (buffer s @ c1)"
  let ?b = "split_lines (last ?a @ c2)"
  have sp: "split_lines (buffer s @ c1 @ c2) = butlast ?a @ ?b"
    using split_lines_append [OF assms] by simp
  have nb: "?b \<noteq> []" by (rule split_lines_nonempty)
  show ?thesis
    by (simp add: addChunk_def Let_def sp nb butlast_append)
qed

lemma no_crlf_cut_snoc:
  "no_crlf_cut pre (cs @ [c]) \<longleftrightarrow>
   no_crlf_cut pre cs \<and> \<not> (ends_cr (pre @ concat cs) \<and> starts_lf c)"
  by (induction cs arbitrary: pre) auto

lemma addChunk_chunks:
  assumes "plain (buffer s)"
  shows "no_crlf_cut (buffer s) chunks \<Longrightarrow>
         foldl (\<lambda>t chunk. snd (addChunk chunk t)) s chunks = snd (addChunk (concat chunks) s)"
proof (induction chunks rule: rev_induct)
  case Nil
  show ?case
    using assms by (simp add: addChunk_def Let_def split_lines_plain)
next
  case (snoc c cs)
  from snoc.prems have cut: "no_crlf_cut (buffer s) cs"
    and last: "\<not> (ends_cr (buffer s @ concat cs) \<and> starts_lf c)"
    by (simp_all add: no_crlf_cut_snoc)
  have "foldl (\<lambda>t chunk. snd (addChunk chunk t)) s (cs @ [c]) =
        snd (addChunk c (snd (addChunk (concat cs) s)))"
    using snoc.IH [OF cut] by simp
  also have "\<dots> = snd (addChunk (concat cs @ c) s)"
    using last by (rule addChunk_addChunk)
  finally show ?case by simp
qed

lemma chunk_boundaries_irrelevant:
  assumes "plain (buffer s)" and "no_crlf_cut (buffer s) chunks"
  shows "feed chunks s = feed [concat chunks] s"
  using addChunk_chunks [OF assms] by (simp add: feed_def)

lemma chunk_boundaries_irrelevant_new:
  "no_crlf_cut [] chunks \<Longrightarrow> feed chunks new_scanner = feed [concat chunks] new_scanner"
  using chunk_boundaries_irrelevant [of new_scanner chunks]
  by (simp add: new_scanner_def plain_def)

text \<open>
  C1. A chunk boundary between the carriage return and the line feed of one line ending
  changes the lines: the text \<open>0\r\nEOF\r\n\<close> fed as the chunks \<open>0\r\<close> and \<open>\nEOF\r\n\<close> gives
  the three lines \<open>0\<close>, the empty line and \<open>EOF\<close>, and a first group with an empty value; fed as
  one chunk it gives the two lines \<open>0\<close> and \<open>EOF\<close>, and the EOF group. (Every other
  chunking gives the lines of the single chunk: \<open>chunk_boundaries_irrelevant\<close>.)
\<close>

theorem crlf_split_across_chunks:
  "lines (feed [''0'' @ [CR], LF # ''EOF'' @ [CR, LF]] (new_scanner :: string scanner)) =
     [''0'', [], ''EOF''] \<and>
   lines (feed [''0'' @ [CR, LF] @ ''EOF'' @ [CR, LF]] (new_scanner :: string scanner)) =
     [''0'', ''EOF''] \<and>
   fst (nextGroup id (feed [''0'' @ [CR], LF # ''EOF'' @ [CR, LF]] (new_scanner :: string scanner))) =
     Inr \<lparr>code = Num 0, gvalue = VString []\<rparr> \<and>
   fst (nextGroup id (feed [''0'' @ [CR, LF] @ ''EOF'' @ [CR, LF]] (new_scanner :: string scanner))) =
     Inr \<lparr>code = Num 0, gvalue = VString ''EOF''\<rparr>"
  by code_simp

text \<open>Facts about the driver: a settled promise stays as it is.\<close>

lemma new_DxfParseError_Stream_error:
  "new_DxfParseError ''Stream error'' None None c = DxfParseError ''Stream error'' None None c"
  by (simp add: new_DxfParseError_def formatMessage_def no_context_def part_def)

lemma parse_while_stop: "\<not> cond s \<Longrightarrow> parse_while cond parseFn s = Some (Inr (), s)"
  by (subst parse_while.simps) simp

lemma parse_while_step:
  "cond s \<Longrightarrow> parseFn s = (Inr u, s') \<Longrightarrow> parse_while cond parseFn s = parse_while cond parseFn s'"
  by (subst parse_while.simps) simp

lemma parse_while_throw:
  "cond s \<Longrightarrow> parseFn s = (Inl e, s') \<Longrightarrow> parse_while cond parseFn s = Some (Inl e, s')"
  by (subst parse_while.simps) simp

lemma run_events_append:
  "run_events parseFn st (xs @ ys) =
     (case run_events parseFn st xs of None \<Rightarrow> None | Some st' \<Rightarrow> run_events parseFn st' ys)"
  by (induction xs arbitrary: st) (simp_all split: option.split)

lemma rejected_after_listener:
  assumes "promise_of st = Rejected e" and "listener parseFn ev st = Some st'"
  shows "promise_of st' = Rejected e"
proof (cases ev)
  case (OnData chunk)
  with assms show ?thesis
    by (auto simp: on_data_def catch_reject_def reject_def split: option.splits prod.splits sum.splits)
next
  case OnEnd
  with assms show ?thesis
    by (auto simp: on_end_def reject_def resolve_def split: option.splits prod.splits sum.splits)
next
  case (OnError err)
  with assms show ?thesis
    by (auto simp: on_error_def reject_def)
qed

lemma rejected_after_events:
  "promise_of st = Rejected e \<Longrightarrow> run_events parseFn st evs = Some st' \<Longrightarrow>
   promise_of st' = Rejected e"
proof (induction evs arbitrary: st)
  case Nil
  then show ?case by simp
next
  case (Cons ev evs)
  from Cons.prems(2) obtain st1 where
    l: "listener parseFn ev st = Some st1" and r: "run_events parseFn st1 evs = Some st'"
    by (auto split: option.splits)
  from Cons.prems(1) l have "promise_of st1 = Rejected e" by (rule rejected_after_listener)
  then show ?case using r by (rule Cons.IH)
qed

text \<open>
  C9. When the stream emits \<open>error\<close> while the promise is still pending, the listener
  returns (nothing is thrown to the stream) and the promise is rejected with a
  \<open>DxfParseError\<close> whose message is \<open>Stream error\<close> and whose \<open>cause\<close> is the transport's error,
  message included. Whatever events follow, the promise keeps that rejection: it is never
  fulfilled.
\<close>

theorem stream_error_rejects:
  assumes "parseStreamIncremental parseFn pre = Some st" and "promise_of st = Pending"
  shows "parseStreamIncremental parseFn (pre @ [OnError err]) =
           Some (st\<lparr>promise_of := Rejected (DxfParseError ''Stream error'' None None (Some err))\<rparr>) \<and>
         (\<forall>post st'. parseStreamIncremental parseFn (pre @ OnError err # post) = Some st' \<longrightarrow>
            promise_of st' = Rejected (DxfParseError ''Stream error'' None None (Some err)))"
proof -
  let ?r = "Rejected (DxfParseError ''Stream error'' None None (Some err))"
  let ?i = "\<lparr>scanner_of = new_scanner, promise_of = Pending\<rparr> :: 'a parse_state"
  have pre: "run_events parseFn ?i pre = Some st"
    using assms(1) by (simp add: parseStreamIncremental_def)
  have e: "on_error err st = st\<lparr>promise_of := ?r\<rparr>"
    using assms(2) by (simp add: on_error_def reject_def new_DxfParseError_Stream_error)
  have one: "parseStreamIncremental parseFn (pre @ [OnError err]) = Some (st\<lparr>promise_of := ?r\<rparr>)"
    by (simp add: parseStreamIncremental_def run_events_append pre e)
  have later: "promise_of st' = ?r"
    if "parseStreamIncremental parseFn (pre @ OnError err # post) = Some st'" for post st'
  proof -
    from that have "run_events parseFn (st\<lparr>promise_of := ?r\<rparr>) post = Some st'"
      by (simp add: parseStreamIncremental_def run_events_append pre e)
    moreover have "promise_of (st\<lparr>promise_of := ?r\<rparr>) = ?r" by simp
    ultimately show ?thesis by (rule rejected_after_events [rotated])
  qed
  from one later show ?thesis by blast
qed

theorem stream_error_rejects_witness:
  "parseStreamIncremental
     (\<lambda>s. case nextGroup id s of (Inl e, s') \<Rightarrow> (Inl e, s') | (Inr g, s') \<Rightarrow> (Inr (), s'))
     [OnData (''0'' @ [LF] @ ''SECTION'' @ [LF])] =
     Some \<lparr>scanner_of = (new_scanner :: string scanner)\<lparr>lines := [''0'', ''SECTION''], pointer := 2,
              lineNumber := 2, lastReadGroup := Some \<lparr>code = Num 0, gvalue = VString ''SECTION''\<rparr>\<rparr>,
            promise_of = Pending\<rparr> \<and>
   promise_of \<lparr>scanner_of = (new_scanner :: string scanner)\<lparr>lines := [''0'', ''SECTION''], pointer := 2,
              lineNumber := 2, lastReadGroup := Some \<lparr>code = Num 0, gvalue = VString ''SECTION''\<rparr>\<rparr>,
            promise_of = Pending\<rparr> = Pending \<and>
   parseStreamIncremental
     (\<lambda>s. case nextGroup id s of (Inl e, s') \<Rightarrow> (Inl e, s') | (Inr g, s') \<Rightarrow> (Inr (), s'))
     ([OnData (''0'' @ [LF] @ ''SECTION'' @ [LF])] @ [OnError (JsError ''Stream read error'')]) =
     Some \<lparr>scanner_of = (new_scanner :: string scanner)\<lparr>lines := [''0'', ''SECTION''], pointer := 2,
              lineNumber := 2, lastReadGroup := Some \<lparr>code = Num 0, gvalue = VString ''SECTION''\<rparr>\<rparr>,
            promise_of = Rejected (DxfParseError ''Stream error'' None None
                                     (Some (JsError ''Stream read error'')))\<rparr> \<and>
   parseStreamIncremental
     (\<lambda>s. case nextGroup id s of (Inl e, s') \<Rightarrow> (Inl e, s') | (Inr g, s') \<Rightarrow> (Inr (), s'))
     ([OnData (''0'' @ [LF] @ ''SECTION'' @ [LF])] @ OnError (JsError ''Stream read error'') # [OnEnd]) =
     Some \<lparr>scanner_of = (new_scanner :: string scanner)\<lparr>lines := [''0'', ''SECTION''], pointer := 2,
              lineNumber := 2, lastReadGroup := Some \<lparr>code = Num 0, gvalue = VString ''SECTION''\<rparr>\<rparr>,
            promise_of = Rejected (DxfParseError ''Stream error'' None None
                                     (Some (JsError ''Stream read error'')))\<rparr>"
proof -
  let ?F = "\<lambda>s :: string scanner.
    case nextGroup id s of (Inl e, s') \<Rightarrow> (Inl e, s') | (Inr g, s') \<Rightarrow> (Inr (), s')"
  let ?s0 = "(new_scanner :: string scanner)\<lparr>lines := [''0'', ''SECTION'']\<rparr>"
  let ?sc = "(new_scanner :: string scanner)\<lparr>lines := [''0'', ''SECTION''], pointer := 2,
      lineNumber := 2, lastReadGroup := Some \<lparr>code = Num 0, gvalue = VString ''SECTION''\<rparr>\<rparr>"
  let ?st = "\<lparr>scanner_of = ?sc, promise_of = Pending\<rparr>"
  let ?pre = "[OnData (''0'' @ [LF] @ ''SECTION'' @ [LF])]"
  let ?err = "JsError ''Stream read error''"
  let ?r = "Rejected (DxfParseError ''Stream error'' None None (Some ?err))"
  let ?data = "\<lambda>s :: string scanner. \<not> needsData s \<and> \<not> isEOF s"
  let ?rest = "\<lambda>s :: string scanner. \<not> isEOF s \<and> hasNext s"
  have a: "snd (addChunk (''0'' @ [LF] @ ''SECTION'' @ [LF]) (new_scanner :: string scanner)) = ?s0"
    by code_simp
  have c0: "?data ?s0" by code_simp
  have f0: "?F ?s0 = (Inr (), ?sc)" by code_simp
  have c1: "\<not> ?data ?sc" by code_simp
  have "parse_while ?data ?F ?s0 = parse_while ?data ?F ?sc"
    using c0 f0 by (rule parse_while_step)
  also have "\<dots> = Some (Inr (), ?sc)"
    using c1 by (rule parse_while_stop)
  finally have pw: "parse_while ?data ?F ?s0 = Some (Inr (), ?sc)" .
  have h1: "parseStreamIncremental ?F ?pre = Some ?st"
    by (simp add: parseStreamIncremental_def on_data_def a [simplified] pw catch_reject_def)
  have h2: "promise_of ?st = Pending" by simp
  from stream_error_rejects [OF h1 h2, of ?err]
  have "parseStreamIncremental ?F (?pre @ [OnError ?err]) = Some (?st\<lparr>promise_of := ?r\<rparr>)"
    by blast
  then have c: "parseStreamIncremental ?F (?pre @ [OnError ?err]) =
      Some \<lparr>scanner_of = ?sc, promise_of = ?r\<rparr>"
    by simp
  have fin: "finalize ?sc = ?sc" by code_simp
  have c2: "\<not> ?rest ?sc" by code_simp
  have pe: "parse_while ?rest ?F ?sc = Some (Inr (), ?sc)"
    using c2 by (rule parse_while_stop)
  have pre_run: "run_events ?F \<lparr>scanner_of = new_scanner, promise_of = Pending\<rparr> ?pre = Some ?st"
    using h1 unfolding parseStreamIncremental_def .
  have tail: "run_events ?F ?st (OnError ?err # [OnEnd]) = Some \<lparr>scanner_of = ?sc, promise_of = ?r\<rparr>"
    by (simp add: on_error_def reject_def new_DxfParseError_Stream_error on_end_def fin pe resolve_def)
  have e: "parseStreamIncremental ?F (?pre @ OnError ?err # [OnEnd]) =
      Some \<lparr>scanner_of = ?sc, promise_of = ?r\<rparr>"
    unfolding parseStreamIncremental_def run_events_append pre_run
    by (simp only: option.case tail)
  show ?thesis using h1 h2 c e by (intro conjI)
qed

end
